theory Spec2Isabelle
  imports Main
begin

section \<open>Strings\<close>

text \<open>
  JavaScript strings are sequences of UTF-16 code units. The model uses \<open>string\<close>, whose
  characters are the code units 0 to 255 (the Latin-1 range); the string methods below are
  the ECMAScript ones restricted to that range.
\<close>

text \<open>
  The characters matched by the regular expression class \<open>\s\<close> and removed by
  \<open>String.prototype.trim\<close>: tab, line feed, vertical tab, form feed, carriage return,
  space and no-break space.
\<close>

definition isWhiteSpace :: "char \<Rightarrow> bool" where
  "isWhiteSpace c =
     (let n = (of_char c :: nat) in (9 \<le> n \<and> n \<le> 13) \<or> n = 32 \<or> n = 160)"

definition trim :: "string \<Rightarrow> string" where
  "trim s = rev (dropWhile isWhiteSpace (rev (dropWhile isWhiteSpace s)))"

text \<open>
  \<open>String.prototype.toLowerCase\<close>: the letters A to Z and the Latin-1 capitals
  (U+00C0 to U+00DE, the multiplication sign U+00D7 excepted) move up by 32.
\<close>

definition toLowerCaseChar :: "char \<Rightarrow> char" where
  "toLowerCaseChar c =
     (let n = (of_char c :: nat)
      in if (65 \<le> n \<and> n \<le> 90) \<or> (192 \<le> n \<and> n \<le> 222 \<and> n \<noteq> 215)
         then char_of (n + 32) else c)"

definition toLowerCase :: "string \<Rightarrow> string" where
  "toLowerCase s = map toLowerCaseChar s"

text \<open>The class \<open>[a-z]\<close> of the regular expression in \<open>kebabCaseToCamelCase\<close>.\<close>

definition isLowerAZ :: "char \<Rightarrow> bool" where
  "isLowerAZ c = (let n = (of_char c :: nat) in 97 \<le> n \<and> n \<le> 122)"

text \<open>
  \<open>String.prototype.toUpperCase\<close> on one character. The source applies it only to a
  character matched by \<open>[a-z]\<close>; every other character is left as it is here, which is
  what JavaScript does for every other ASCII character.
\<close>

definition toUpperCaseChar :: "char \<Rightarrow> char" where
  "toUpperCaseChar c = (if isLowerAZ c then char_of ((of_char c :: nat) - 32) else c)"

text \<open>
  \<open>.replace(/-([a-z])/g, (_, char) => char.toUpperCase())\<close>: the matches are found from
  left to right and do not overlap; a hyphen that is not followed by a letter of \<open>[a-z]\<close>
  is no match and is copied.
\<close>

fun replaceHyphenLetter :: "string \<Rightarrow> string" where
  "replaceHyphenLetter [] = []"
| "replaceHyphenLetter [c] = [c]"
| "replaceHyphenLetter (c # d # cs) =
     (if c = CHR ''-'' \<and> isLowerAZ d
      then toUpperCaseChar d # replaceHyphenLetter cs
      else c # replaceHyphenLetter (d # cs))"

definition kebabCaseToCamelCase :: "string \<Rightarrow> string" where
  "kebabCaseToCamelCase str = replaceHyphenLetter (toLowerCase (trim str))"

text \<open>
  The same step as the specification words it, for comparison with the source's:
  each hyphen is removed and the character that followed it is upper-cased, whatever
  that character is.
\<close>

fun removeEveryHyphen :: "string \<Rightarrow> string" where
  "removeEveryHyphen [] = []"
| "removeEveryHyphen [c] = (if c = CHR ''-'' then [] else [c])"
| "removeEveryHyphen (c # d # cs) =
     (if c = CHR ''-'' then removeEveryHyphen (toUpperCaseChar d # cs)
      else c # removeEveryHyphen (d # cs))"

text \<open>Every hyphen of the string is immediately followed by a letter of \<open>[a-z]\<close>.\<close>

fun hyphensBeforeLetters :: "string \<Rightarrow> bool" where
  "hyphensBeforeLetters [] = True"
| "hyphensBeforeLetters [c] = (c \<noteq> CHR ''-'')"
| "hyphensBeforeLetters (c # d # cs) =
     (if c = CHR ''-'' then isLowerAZ d \<and> hyphensBeforeLetters cs
      else hyphensBeforeLetters (d # cs))"

text \<open>\<open>.replace(/\s+/g, "-")\<close>: every maximal run of white space becomes one hyphen.\<close>

function replaceWhiteSpaceRuns :: "string \<Rightarrow> string" where
  "replaceWhiteSpaceRuns [] = []"
| "replaceWhiteSpaceRuns (c # cs) =
     (if isWhiteSpace c
      then CHR ''-'' # replaceWhiteSpaceRuns (dropWhile isWhiteSpace cs)
      else c # replaceWhiteSpaceRuns cs)"
  by pat_completeness auto
termination
  by (relation "measure length") (auto simp: less_Suc_eq_le length_dropWhile_le)

text \<open>\<open>.replace(/\+/g, "and")\<close>.\<close>

definition replacePlus :: "string \<Rightarrow> string" where
  "replacePlus s = concat (map (\<lambda>c. if c = CHR ''+'' then ''and'' else [c]) s)"

text \<open>
  The decimal numeral of an array index, as the template literal \<open>`table${index}`\<close>
  prints it.
\<close>

fun decimal :: "nat \<Rightarrow> string" where
  "decimal n =
     (if n < 10 then [char_of (48 + n)]
      else decimal (n div 10) @ [char_of (48 + n mod 10)])"

declare decimal.simps [simp del]

section \<open>The document tree\<close>

text \<open>
  An \<open>HTMLElement\<close> as the extraction code reads it: its text content, its \<open>id\<close>
  attribute (which may be missing) and, for every selector string, the elements that a
  scoped \<open>querySelectorAll\<close> returns, in document order. The DOM implementation that
  answers the queries is outside the repository, so the answers are part of the element.
\<close>

datatype element =
  Element (textContent: string) (idAttribute: "string option")
          (querySelectorAll: "string \<Rightarrow> element list")

text \<open>
  \<open>querySelector\<close> is the first element of \<open>querySelectorAll\<close>, or \<open>null\<close>.
\<close>

definition querySelector :: "element \<Rightarrow> string \<Rightarrow> element option" where
  "querySelector e sel = (case querySelectorAll e sel of [] \<Rightarrow> None | x # _ \<Rightarrow> Some x)"

text \<open>
  The \<open>id\<close> property of an element reflects the attribute: it is the empty string, not
  \<open>null\<close> or \<open>undefined\<close>, when the element has no \<open>id\<close> attribute.
\<close>

definition elementId :: "element \<Rightarrow> string" where
  "elementId e = (case idAttribute e of None \<Rightarrow> [] | Some s \<Rightarrow> s)"

section \<open>Arrays and objects\<close>

text \<open>\<open>Array.from(items, mapFn)\<close>: \<open>mapFn\<close> receives each item and its index.\<close>

definition arrayFrom :: "'a list \<Rightarrow> ('a \<Rightarrow> nat \<Rightarrow> 'b) \<Rightarrow> 'b list" where
  "arrayFrom items mapFn = map (\<lambda>(i, x). mapFn x i) (enumerate 0 items)"

text \<open>
  \<open>array.reduce(callback, initial)\<close>: the callback receives the accumulator, the item
  and its index, from left to right.
\<close>

fun reduceFrom :: "('a \<Rightarrow> 'b \<Rightarrow> nat \<Rightarrow> 'a) \<Rightarrow> 'a \<Rightarrow> nat \<Rightarrow> 'b list \<Rightarrow> 'a" where
  "reduceFrom f acc i [] = acc"
| "reduceFrom f acc i (x # xs) = reduceFrom f (f acc x i) (Suc i) xs"

definition reduce :: "'b list \<Rightarrow> ('a \<Rightarrow> 'b \<Rightarrow> nat \<Rightarrow> 'a) \<Rightarrow> 'a \<Rightarrow> 'a" where
  "reduce items f initial = reduceFrom f initial 0 items"

text \<open>
  The computed property name \<open>[keys[index]]\<close>: reading an array past its end gives
  \<open>undefined\<close>, and \<open>undefined\<close> as a property name is the string \<open>"undefined"\<close>.
\<close>

definition propertyKey :: "string list \<Rightarrow> nat \<Rightarrow> string" where
  "propertyKey keys index = (if index < length keys then keys ! index else ''undefined'')"

text \<open>
  An object with string values is a map from property names to strings;
  \<open>{...acc, [k]: v}\<close> is \<open>acc(k \<mapsto> v)\<close>.
\<close>

type_synonym rowRecord = "string \<rightharpoonup> string"

type_synonym converter = "element option \<Rightarrow> nat \<Rightarrow> string"

type_synonym mapper = "string list \<Rightarrow> element list \<Rightarrow> converter \<Rightarrow> rowRecord"

section \<open>The string converters\<close>

text \<open>\<open>element?.textContent.trim() ?? ""\<close>\<close>

definition textContentConverter :: converter where
  "textContentConverter element index =
     (case map_option (\<lambda>e. trim (textContent e)) element of None \<Rightarrow> [] | Some s \<Rightarrow> s)"

definition textContentToCamelCaseConverter :: converter where
  "textContentToCamelCaseConverter element index =
     kebabCaseToCamelCase
       (replacePlus (replaceWhiteSpaceRuns (textContentConverter element index)))"

text \<open>\<open>kebabCaseToCamelCase(element?.id ?? `table${index}`)\<close>\<close>

definition idToCamelCaseConverter :: converter where
  "idToCamelCaseConverter element index =
     kebabCaseToCamelCase
       (case map_option elementId element of
          None \<Rightarrow> ''table'' @ decimal index
        | Some s \<Rightarrow> s)"

section \<open>The string converters with exceptions as values\<close>

text \<open>
  The same three converters once more, this time with every operation that can raise
  a \<open>TypeError\<close> modelled with its raising branch, so that "the converter returns a
  string and does not raise" is a statement about the result. A value is \<open>undefined\<close>,
  \<open>null\<close>, a string or an element.
\<close>

datatype jsError = TypeError

datatype jsValue = JSUndefined | JSNull | JSString string | JSElement element

text \<open>The two properties that the converters read.\<close>

datatype property = TextContent | Id

text \<open>The argument of a converter: an element or \<open>null\<close>.\<close>

definition elementOrNull :: "element option \<Rightarrow> jsValue" where
  "elementOrNull element = (case element of None \<Rightarrow> JSNull | Some e \<Rightarrow> JSElement e)"

text \<open>Sequencing: an exception raised by the first step is the result.\<close>

definition bindE :: "jsError + 'a \<Rightarrow> ('a \<Rightarrow> jsError + 'b) \<Rightarrow> jsError + 'b" where
  "bindE r f = (case r of Inl err \<Rightarrow> Inl err | Inr v \<Rightarrow> f v)"

text \<open>
  A property read \<open>v.textContent\<close> or \<open>v.id\<close>: it raises on \<open>undefined\<close> and
  \<open>null\<close>, gives \<open>undefined\<close> on a string (which has neither property) and the
  property's string on an element.
\<close>

definition getProperty :: "jsValue \<Rightarrow> property \<Rightarrow> jsError + jsValue" where
  "getProperty v p =
     (case v of
        JSUndefined \<Rightarrow> Inl TypeError
      | JSNull \<Rightarrow> Inl TypeError
      | JSString s \<Rightarrow> Inr JSUndefined
      | JSElement e \<Rightarrow>
          (case p of
             TextContent \<Rightarrow> Inr (JSString (textContent e))
           | Id \<Rightarrow> Inr (JSString (elementId e))))"

text \<open>
  A call \<open>v.trim()\<close>, \<open>v.toLowerCase()\<close> or \<open>v.replace(...)\<close>: it raises unless
  \<open>v\<close> is a string.
\<close>

definition callStringMethod :: "(string \<Rightarrow> string) \<Rightarrow> jsValue \<Rightarrow> jsError + jsValue" where
  "callStringMethod method v =
     (case v of JSString s \<Rightarrow> Inr (JSString (method s)) | _ \<Rightarrow> Inl TypeError)"

text \<open>
  Optional chaining \<open>v?.rest\<close>: on \<open>undefined\<close> and \<open>null\<close> the whole chain is
  \<open>undefined\<close> and \<open>rest\<close> is not evaluated.
\<close>

definition optionalChain ::
  "jsValue \<Rightarrow> (jsValue \<Rightarrow> jsError + jsValue) \<Rightarrow> jsError + jsValue" where
  "optionalChain v rest =
     (case v of JSUndefined \<Rightarrow> Inr JSUndefined | JSNull \<Rightarrow> Inr JSUndefined | _ \<Rightarrow> rest v)"

text \<open>\<open>v ?? other\<close>: only \<open>undefined\<close> and \<open>null\<close> are replaced.\<close>

definition nullishCoalesce :: "jsValue \<Rightarrow> jsValue \<Rightarrow> jsValue" where
  "nullishCoalesce v other = (case v of JSUndefined \<Rightarrow> other | JSNull \<Rightarrow> other | _ \<Rightarrow> v)"

text \<open>\<open>str.trim().toLowerCase().replace(/-([a-z])/g, ...)\<close>\<close>

definition kebabCaseToCamelCaseE :: "jsValue \<Rightarrow> jsError + jsValue" where
  "kebabCaseToCamelCaseE str =
     bindE (callStringMethod trim str)
       (\<lambda>trimmed. bindE (callStringMethod toLowerCase trimmed)
          (callStringMethod replaceHyphenLetter))"

text \<open>\<open>element?.textContent.trim() ?? ""\<close>\<close>

definition textContentConverterE :: "jsValue \<Rightarrow> nat \<Rightarrow> jsError + jsValue" where
  "textContentConverterE element index =
     bindE (optionalChain element
              (\<lambda>e. bindE (getProperty e TextContent) (callStringMethod trim)))
       (\<lambda>v. Inr (nullishCoalesce v (JSString [])))"

text \<open>
  \<open>kebabCaseToCamelCase(textContentConverter(element).replace(/\s+/g, "-").replace(/\+/g, "and"))\<close>
\<close>

definition textContentToCamelCaseConverterE :: "jsValue \<Rightarrow> nat \<Rightarrow> jsError + jsValue" where
  "textContentToCamelCaseConverterE element index =
     bindE (textContentConverterE element index)
       (\<lambda>text. bindE (callStringMethod replaceWhiteSpaceRuns text)
          (\<lambda>hyphenated. bindE (callStringMethod replacePlus hyphenated)
             kebabCaseToCamelCaseE))"

text \<open>\<open>kebabCaseToCamelCase(element?.id ?? `table${index}`)\<close>\<close>

definition idToCamelCaseConverterE :: "jsValue \<Rightarrow> nat \<Rightarrow> jsError + jsValue" where
  "idToCamelCaseConverterE element index =
     bindE (optionalChain element (\<lambda>e. getProperty e Id))
       (\<lambda>v. kebabCaseToCamelCaseE (nullishCoalesce v (JSString (''table'' @ decimal index))))"

section \<open>The key/value mapper\<close>

definition keysAndElementsMapper :: mapper where
  "keysAndElementsMapper keys elements valueConverter =
     reduce elements
       (\<lambda>acc element index. acc(propertyKey keys index \<mapsto> valueConverter (Some element) index))
       Map.empty"

section \<open>The table converter\<close>

text \<open>
  The options after the defaults and the caller's overrides have been merged. The field
  \<open>keysAndElementsMapperOption\<close> is the option \<open>keysAndElementsMapper\<close> of the source.
\<close>

record options =
  root :: element
  scopeSelector :: string
  idElementSelector :: string
  tableSelector :: string
  headerSelector :: string
  rowSelector :: string
  cellSelector :: string
  headerKeyConverter :: converter
  cellValueConverter :: converter
  tableKeyConverter :: converter
  keysAndElementsMapperOption :: mapper

definition defaultOptions :: "element \<Rightarrow> options" where
  "defaultOptions document =
     \<lparr> root = document,
       scopeSelector = ''div.container'',
       idElementSelector = '':scope > h2'',
       tableSelector = '':scope > div.table-responsive > table'',
       headerSelector = ''thead th'',
       rowSelector = ''tbody tr'',
       cellSelector = ''td'',
       headerKeyConverter = textContentToCamelCaseConverter,
       cellValueConverter = textContentConverter,
       tableKeyConverter = idToCamelCaseConverter,
       keysAndElementsMapperOption = keysAndElementsMapper \<rparr>"

definition tableHeaders :: "element \<Rightarrow> options \<Rightarrow> string list" where
  "tableHeaders table opts =
     arrayFrom (querySelectorAll table (headerSelector opts))
       (\<lambda>th index. headerKeyConverter opts (Some th) index)"

definition tableRows :: "element \<Rightarrow> options \<Rightarrow> element list list" where
  "tableRows table opts =
     arrayFrom (querySelectorAll table (rowSelector opts))
       (\<lambda>row index. querySelectorAll row (cellSelector opts))"

definition convertTableToRecordArray :: "element \<Rightarrow> options \<Rightarrow> rowRecord list" where
  "convertTableToRecordArray table opts =
     (let headers = tableHeaders table opts
      in reduce (tableRows table opts)
           (\<lambda>acc cells index.
              if length cells = length headers
              then acc @ [keysAndElementsMapperOption opts headers cells (cellValueConverter opts)]
              else acc)
           [])"

section \<open>The document extractor\<close>

type_synonym extractionResult = "string \<rightharpoonup> rowRecord list"

text \<open>
  The array of pairs \<open>[id, table]\<close> that \<open>getTablesAsRecord\<close> builds first
  (\<open>id\<close> is written \<open>tableId\<close> below).
\<close>

definition tableEntries :: "options \<Rightarrow> (string \<times> element option) list" where
  "tableEntries opts =
     arrayFrom (querySelectorAll (root opts) (scopeSelector opts))
       (\<lambda>container index.
          (tableKeyConverter opts (querySelector container (idElementSelector opts)) index,
           querySelector container (tableSelector opts)))"

text \<open>
  The callback of the reduction in \<open>getTablesAsRecord\<close>: a pair whose table is
  \<open>null\<close> leaves the accumulator as it is.
\<close>

definition addTable ::
  "options \<Rightarrow> extractionResult \<Rightarrow> string \<times> element option \<Rightarrow> nat \<Rightarrow> extractionResult" where
  "addTable opts acc entry index =
     (case entry of
        (tableId, Some table) \<Rightarrow> acc(tableId \<mapsto> convertTableToRecordArray table opts)
      | (tableId, None) \<Rightarrow> acc)"

definition collectTables :: "options \<Rightarrow> (string \<times> element option) list \<Rightarrow> extractionResult" where
  "collectTables opts entries = reduce entries (addTable opts) Map.empty"

definition getTablesAsRecord :: "options \<Rightarrow> extractionResult" where
  "getTablesAsRecord opts = collectTables opts (tableEntries opts)"

section \<open>Example documents\<close>

text \<open>
  Elements shaped like the page the default selectors are written for. Only the fields
  that the extraction reads from an element of each kind are filled in.
\<close>

definition cellElement :: "string \<Rightarrow> element" where
  "cellElement text = Element text None (\<lambda>sel. [])"

definition headingElement :: "string option \<Rightarrow> string \<Rightarrow> element" where
  "headingElement idAttr text = Element text idAttr (\<lambda>sel. [])"

definition rowElement :: "element list \<Rightarrow> element" where
  "rowElement cells = Element [] None (\<lambda>sel. if sel = ''td'' then cells else [])"

definition tableElement :: "element list \<Rightarrow> element list \<Rightarrow> element" where
  "tableElement headerCells rows =
     Element [] None
       (\<lambda>sel. if sel = ''thead th'' then headerCells
              else if sel = ''tbody tr'' then rows else [])"

definition containerElement :: "element list \<Rightarrow> element list \<Rightarrow> element" where
  "containerElement headings tables =
     Element [] None
       (\<lambda>sel. if sel = '':scope > h2'' then headings
              else if sel = '':scope > div.table-responsive > table'' then tables else [])"

definition documentElement :: "element list \<Rightarrow> element" where
  "documentElement containers =
     Element [] None (\<lambda>sel. if sel = ''div.container'' then containers else [])"

text \<open>A table with the headers \<open>Share\<close> and \<open>OS + Browser\<close> and two full rows.\<close>

definition exampleTable :: element where
  "exampleTable =
     tableElement [cellElement ''Share'', cellElement ''OS + Browser'']
       [rowElement [cellElement ''10'', cellElement ''Linux''],
        rowElement [cellElement ''20'', cellElement ''Mac'']]"

text \<open>A table with two headers whose only row has one cell.\<close>

definition shortRowTable :: element where
  "shortRowTable =
     tableElement [cellElement ''Share'', cellElement ''OS + Browser'']
       [rowElement [cellElement ''30'']]"

text \<open>A table whose two headers give the same key, with one full row.\<close>

definition duplicateHeaderTable :: element where
  "duplicateHeaderTable =
     tableElement [cellElement ''Name'', cellElement ''Name'']
       [rowElement [cellElement ''first'', cellElement ''second'']]"

text \<open>
  A document of four containers: two whose headings carry the same id, one without a
  heading, and one without a table.
\<close>

definition exampleDocument :: element where
  "exampleDocument =
     documentElement
       [containerElement [headingElement (Some ''latest-ipod'') ''First''] [exampleTable],
        containerElement [headingElement (Some ''latest-ipod'') ''Second''] [shortRowTable],
        containerElement [] [exampleTable],
        containerElement [headingElement (Some ''no-table'') ''Third''] []]"

text \<open>
  Two containers whose headings carry the same id; the table selector finds nothing in
  the second.
\<close>

definition tablelessCollisionDocument :: element where
  "tablelessCollisionDocument =
     documentElement
       [containerElement [headingElement (Some ''latest-ipod'') ''First''] [exampleTable],
        containerElement [headingElement (Some ''latest-ipod'') ''Second''] []]"

text \<open>
  Two containers whose headings carry the same id; no row of the first table has as
  many cells as there are headers, the second table has two full rows.
\<close>

definition overwrittenTableDocument :: element where
  "overwrittenTableDocument =
     documentElement
       [containerElement [headingElement (Some ''latest-ipod'') ''First''] [shortRowTable],
        containerElement [headingElement (Some ''latest-ipod'') ''Second''] [exampleTable]]"

text \<open>
  Three containers; the heading of the third is present and has no \<open>id\<close> attribute.
\<close>

definition missingIdDocument :: element where
  "missingIdDocument =
     documentElement
       [containerElement [headingElement (Some ''latest-ipod'') ''First''] [exampleTable],
        containerElement [headingElement (Some ''no-table'') ''Second''] [],
        containerElement [headingElement None ''Heading''] [exampleTable]]"

section \<open>Facts about the string functions\<close>

lemma dropWhile_none: "(\<And>c. c \<in> set s \<Longrightarrow> \<not> P c) \<Longrightarrow> dropWhile P s = s"
  by (cases s) auto

lemma trim_no_white_space:
  assumes "\<And>c. c \<in> set s \<Longrightarrow> \<not> isWhiteSpace c"
  shows "trim s = s"
proof -
  have "dropWhile isWhiteSpace s = s"
    using assms by (rule dropWhile_none)
  moreover have "dropWhile isWhiteSpace (rev s) = rev s"
    using assms by (intro dropWhile_none) simp
  ultimately show ?thesis
    by (simp add: trim_def)
qed

lemma toLowerCase_fixed: "(\<And>c. c \<in> set s \<Longrightarrow> toLowerCaseChar c = c) \<Longrightarrow> toLowerCase s = s"
  by (simp add: toLowerCase_def map_idI)

lemma replaceHyphenLetter_no_hyphen: "CHR ''-'' \<notin> set s \<Longrightarrow> replaceHyphenLetter s = s"
  by (induction s rule: replaceHyphenLetter.induct) auto

lemma toUpperCaseChar_code:
  assumes "isLowerAZ d"
  shows "(of_char (toUpperCaseChar d) :: nat) = of_char d - 32"
proof -
  from assms have "97 \<le> (of_char d :: nat)" "(of_char d :: nat) \<le> 122"
    by (simp_all add: isLowerAZ_def Let_def)
  then have "(of_char d - 32 :: nat) mod 256 = of_char d - 32"
    by simp
  with assms show ?thesis
    by (simp add: toUpperCaseChar_def)
qed

lemma isLowerAZ_not_hyphen:
  assumes "isLowerAZ d"
  shows "d \<noteq> CHR ''-''" and "toUpperCaseChar d \<noteq> CHR ''-''"
proof -
  from assms have range: "97 \<le> (of_char d :: nat)" "(of_char d :: nat) \<le> 122"
    by (simp_all add: isLowerAZ_def Let_def)
  then show "d \<noteq> CHR ''-''"
    by auto
  have "(of_char (toUpperCaseChar d) :: nat) \<noteq> of_char (CHR ''-'')"
    using range by (simp add: toUpperCaseChar_code [OF assms])
  then show "toUpperCaseChar d \<noteq> CHR ''-''"
    by metis
qed

lemma replaceHyphenLetter_append:
  "\<not> (xs \<noteq> [] \<and> last xs = CHR ''-'' \<and> zs \<noteq> [] \<and> isLowerAZ (hd zs)) \<Longrightarrow>
     replaceHyphenLetter (xs @ zs) = replaceHyphenLetter xs @ replaceHyphenLetter zs"
proof (induction xs rule: replaceHyphenLetter.induct)
  case 1
  then show ?case by simp
next
  case (2 c)
  then show ?case by (cases zs) auto
next
  case (3 c d cs)
  show ?case
  proof (cases "c = CHR ''-'' \<and> isLowerAZ d")
    case True
    have "replaceHyphenLetter (cs @ zs) = replaceHyphenLetter cs @ replaceHyphenLetter zs"
      using "3.prems" by (intro "3.IH"(1) True) (cases cs; auto)
    then show ?thesis using True by simp
  next
    case False
    have "replaceHyphenLetter ((d # cs) @ zs) = replaceHyphenLetter (d # cs) @ replaceHyphenLetter zs"
      using "3.prems" by (intro "3.IH"(2) False) auto
    moreover from False
    have "replaceHyphenLetter (c # d # cs @ zs) = c # replaceHyphenLetter (d # cs @ zs)"
      and "replaceHyphenLetter (c # d # cs) = c # replaceHyphenLetter (d # cs)"
      by auto
    ultimately show ?thesis by simp
  qed
qed

lemma replaceHyphenLetter_spec:
  "hyphensBeforeLetters s \<Longrightarrow>
     replaceHyphenLetter s = removeEveryHyphen s \<and> CHR ''-'' \<notin> set (replaceHyphenLetter s)"
proof (induction s rule: replaceHyphenLetter.induct)
  case 1
  then show ?case by simp
next
  case (2 c)
  then show ?case by simp
next
  case (3 c d cs)
  show ?case
  proof (cases "c = CHR ''-''")
    case True
    with "3.prems" have d: "isLowerAZ d" and cs: "hyphensBeforeLetters cs"
      by simp_all
    from "3.IH"(1) True d cs
    have both: "replaceHyphenLetter cs = removeEveryHyphen cs \<and>
                CHR ''-'' \<notin> set (replaceHyphenLetter cs)"
      by blast
    note ih = both [THEN conjunct1] both [THEN conjunct2]
    have up: "toUpperCaseChar d \<noteq> CHR ''-''"
      using d by (rule isLowerAZ_not_hyphen)
    have spec: "removeEveryHyphen (c # d # cs) = toUpperCaseChar d # removeEveryHyphen cs"
      using up True by (cases cs) auto
    have src: "replaceHyphenLetter (c # d # cs) = toUpperCaseChar d # replaceHyphenLetter cs"
      using True d by simp
    show ?thesis
      unfolding spec src using ih up by auto
  next
    case False
    with "3.prems" have "hyphensBeforeLetters (d # cs)"
      by simp
    with "3.IH"(2) False
    have "replaceHyphenLetter (d # cs) = removeEveryHyphen (d # cs) \<and>
          CHR ''-'' \<notin> set (replaceHyphenLetter (d # cs))"
      by blast
    then show ?thesis
      using False by auto
  qed
qed

lemma digit_plain:
  assumes "48 \<le> (of_char c :: nat)" and "(of_char c :: nat) \<le> 57"
  shows "\<not> isWhiteSpace c" and "toLowerCaseChar c = c" and "c \<noteq> CHR ''-''"
  using assms by (auto simp: isWhiteSpace_def toLowerCaseChar_def Let_def)

lemma decimal_digits:
  "c \<in> set (decimal n) \<Longrightarrow> 48 \<le> (of_char c :: nat) \<and> (of_char c :: nat) \<le> 57"
proof (induction n rule: decimal.induct)
  case (1 n)
  show ?case
  proof (cases "n < 10")
    case True
    with "1.prems" have "c = char_of (48 + n)"
      by (simp add: decimal.simps [of n])
    with True show ?thesis by simp
  next
    case False
    with "1.prems" have "c \<in> set (decimal (n div 10)) \<or> c = char_of (48 + n mod 10)"
      by (auto simp: decimal.simps [of n])
    then show ?thesis
    proof
      assume "c \<in> set (decimal (n div 10))"
      with "1.IH" False show ?thesis by simp
    next
      have "n mod 10 < 10" by simp
      then have "(48 + n mod 10) mod 256 = 48 + n mod 10"
        by simp
      moreover assume "c = char_of (48 + n mod 10)"
      ultimately show ?thesis by simp
    qed
  qed
qed

lemma table_plain:
  assumes "c \<in> set ''table''"
  shows "\<not> isWhiteSpace c" and "toLowerCaseChar c = c" and "c \<noteq> CHR ''-''"
  using assms by (auto simp: isWhiteSpace_def toLowerCaseChar_def Let_def)

lemma kebabCaseToCamelCase_fallback:
  "kebabCaseToCamelCase (''table'' @ decimal i) = ''table'' @ decimal i"
proof -
  let ?s = "''table'' @ decimal i"
  have plain: "\<not> isWhiteSpace c \<and> toLowerCaseChar c = c \<and> c \<noteq> CHR ''-''" if "c \<in> set ?s" for c
  proof -
    from that have "c \<in> set ''table'' \<or> c \<in> set (decimal i)"
      by simp
    then show ?thesis
      using table_plain [of c] digit_plain [of c] decimal_digits [of c i] by blast
  qed
  have "trim ?s = ?s"
    using plain by (intro trim_no_white_space) blast
  moreover have "toLowerCase ?s = ?s"
    using plain by (intro toLowerCase_fixed) blast
  moreover have "replaceHyphenLetter ?s = ?s"
    using plain by (intro replaceHyphenLetter_no_hyphen) blast
  ultimately show ?thesis
    by (simp only: kebabCaseToCamelCase_def)
qed

lemma last_dropWhile: "dropWhile P cs \<noteq> [] \<Longrightarrow> last (dropWhile P cs) = last cs"
  by (metis last_appendR takeWhile_dropWhile_id)

lemma replaceWhiteSpaceRuns_append:
  "\<not> (xs \<noteq> [] \<and> isWhiteSpace (last xs) \<and> zs \<noteq> [] \<and> isWhiteSpace (hd zs)) \<Longrightarrow>
     replaceWhiteSpaceRuns (xs @ zs) = replaceWhiteSpaceRuns xs @ replaceWhiteSpaceRuns zs"
proof (induction xs rule: replaceWhiteSpaceRuns.induct)
  case 1
  then show ?case by simp
next
  case (2 c cs)
  show ?case
  proof (cases "isWhiteSpace c")
    case False
    have "replaceWhiteSpaceRuns (cs @ zs) = replaceWhiteSpaceRuns cs @ replaceWhiteSpaceRuns zs"
      using "2.prems" by (intro "2.IH"(2) False) (cases cs; auto)
    then show ?thesis using False by simp
  next
    case True
    show ?thesis
    proof (cases "dropWhile isWhiteSpace cs = []")
      case allws: True
      then have cs: "\<forall>x\<in>set cs. isWhiteSpace x"
        by (simp add: dropWhile_eq_Nil_conv)
      then have "isWhiteSpace (last (c # cs))"
        using True by (cases "cs = []") auto
      with "2.prems" have zs: "zs = [] \<or> \<not> isWhiteSpace (hd zs)"
        by auto
      then have "dropWhile isWhiteSpace zs = zs"
        by (cases zs) auto
      with cs have "dropWhile isWhiteSpace (cs @ zs) = zs"
        by (simp add: dropWhile_append2)
      moreover have "replaceWhiteSpaceRuns (c # cs @ zs) =
          CHR ''-'' # replaceWhiteSpaceRuns (dropWhile isWhiteSpace (cs @ zs))"
        and "replaceWhiteSpaceRuns (c # cs) =
          CHR ''-'' # replaceWhiteSpaceRuns (dropWhile isWhiteSpace cs)"
        using True by simp_all
      ultimately show ?thesis
        by (simp only: allws append_Cons replaceWhiteSpaceRuns.simps append_Nil)
    next
      case rest: False
      then obtain x where x: "x \<in> set cs" "\<not> isWhiteSpace x"
        by (auto simp: dropWhile_eq_Nil_conv)
      then have app: "dropWhile isWhiteSpace (cs @ zs) = dropWhile isWhiteSpace cs @ zs"
        by (simp add: dropWhile_append1)
      have "cs \<noteq> []"
        using x by auto
      then have "last (dropWhile isWhiteSpace cs) = last (c # cs)"
        using rest by (simp add: last_dropWhile)
      with "2.prems"
      have "\<not> (dropWhile isWhiteSpace cs \<noteq> [] \<and> isWhiteSpace (last (dropWhile isWhiteSpace cs)) \<and>
               zs \<noteq> [] \<and> isWhiteSpace (hd zs))"
        by auto
      with "2.IH"(1) True
      have "replaceWhiteSpaceRuns (dropWhile isWhiteSpace cs @ zs) =
              replaceWhiteSpaceRuns (dropWhile isWhiteSpace cs) @ replaceWhiteSpaceRuns zs"
        by blast
      then show ?thesis
        using True app by simp
    qed
  qed
qed

lemma replaceWhiteSpaceRuns_run:
  assumes "ws \<noteq> []" and "\<forall>c\<in>set ws. isWhiteSpace c" and "ys = [] \<or> \<not> isWhiteSpace (hd ys)"
  shows "replaceWhiteSpaceRuns (ws @ ys) = CHR ''-'' # replaceWhiteSpaceRuns ys"
proof -
  from assms(1) obtain w ws' where ws: "ws = w # ws'"
    by (cases ws) auto
  have "dropWhile isWhiteSpace ys = ys"
    using assms(3) by (cases ys) auto
  with assms(2) ws have "dropWhile isWhiteSpace (ws' @ ys) = ys"
    by (simp add: dropWhile_append2)
  with assms(2) ws show ?thesis
    by simp
qed

section \<open>Facts about the converters with exceptions\<close>

text \<open>The raising branches are reached when nothing guards the operation.\<close>

lemma raising_operations:
  "getProperty JSNull TextContent = Inl TypeError"
  "getProperty JSUndefined Id = Inl TypeError"
  "callStringMethod trim JSUndefined = Inl TypeError"
  "kebabCaseToCamelCaseE JSUndefined = Inl TypeError"
  by (simp_all add: getProperty_def callStringMethod_def kebabCaseToCamelCaseE_def bindE_def)

lemma kebabCaseToCamelCaseE_string:
  "kebabCaseToCamelCaseE (JSString s) = Inr (JSString (kebabCaseToCamelCase s))"
  by (simp add: kebabCaseToCamelCaseE_def bindE_def callStringMethod_def kebabCaseToCamelCase_def)

lemma textContentConverterE_value:
  "textContentConverterE (elementOrNull element) index =
     Inr (JSString (textContentConverter element index))"
  by (cases element)
    (simp_all add: textContentConverterE_def elementOrNull_def bindE_def optionalChain_def
      getProperty_def callStringMethod_def nullishCoalesce_def textContentConverter_def)

section \<open>Facts about arrays and reductions\<close>

lemma arrayFrom_length: "length (arrayFrom xs f) = length xs"
  by (simp add: arrayFrom_def)

lemma arrayFrom_nth: "i < length xs \<Longrightarrow> arrayFrom xs f ! i = f (xs ! i) i"
  by (simp add: arrayFrom_def nth_enumerate_eq)

lemma reduceFrom_append:
  "reduceFrom f m n (xs @ ys) = reduceFrom f (reduceFrom f m n xs) (n + length xs) ys"
  by (induction xs arbitrary: m n) auto

lemma reduceFrom_filter_map:
  "reduceFrom (\<lambda>acc x i. if P x then acc @ [g x] else acc) acc n xs = acc @ map g (filter P xs)"
  by (induction xs arbitrary: acc n) auto

lemma reduceFrom_upd_dom:
  "dom (reduceFrom (\<lambda>acc e i. acc(K i \<mapsto> V e i)) m n xs) = dom m \<union> K ` {n..<n + length xs}"
proof (induction xs arbitrary: m n)
  case Nil
  then show ?case by simp
next
  case (Cons x xs)
  have "{n..<n + length (x # xs)} = insert n {Suc n..<Suc n + length xs}"
    by auto
  then show ?case
    by (simp add: Cons.IH del: fun_upd_apply)
qed

lemma reduceFrom_upd_other:
  "k \<notin> K ` {n..<n + length xs} \<Longrightarrow>
     reduceFrom (\<lambda>acc e i. acc(K i \<mapsto> V e i)) m n xs k = m k"
proof (induction xs arbitrary: m n)
  case Nil
  then show ?case by simp
next
  case (Cons x xs)
  have sub: "{Suc n..<Suc n + length xs} \<subseteq> {n..<n + length (x # xs)}" and n: "n \<in> {n..<n + length (x # xs)}"
    by auto
  from Cons.prems sub have "k \<notin> K ` {Suc n..<Suc n + length xs}"
    by blast
  moreover from Cons.prems n have "k \<noteq> K n"
    by blast
  ultimately show ?case
    by (simp add: Cons.IH fun_upd_other del: fun_upd_apply)
qed

lemma reduceFrom_upd_last_write:
  "i < length xs \<Longrightarrow> (\<forall>j. i < j \<and> j < length xs \<longrightarrow> K (n + j) \<noteq> K (n + i)) \<Longrightarrow>
     reduceFrom (\<lambda>acc e i. acc(K i \<mapsto> V e i)) m n xs (K (n + i)) = Some (V (xs ! i) (n + i))"
proof (induction xs arbitrary: m n i)
  case Nil
  then show ?case by simp
next
  case (Cons x xs)
  show ?case
  proof (cases i)
    case 0
    have "K n \<notin> K ` {Suc n..<Suc n + length xs}"
    proof
      assume "K n \<in> K ` {Suc n..<Suc n + length xs}"
      then obtain l where l: "Suc n \<le> l" "l < Suc n + length xs" "K n = K l"
        by auto
      define j where "j = l - n"
      from l have "0 < j" "j < length (x # xs)" "l = n + j"
        by (auto simp: j_def)
      with Cons.prems(2) 0 l(3) show False
        by auto
    qed
    then show ?thesis
      using 0 by (simp add: reduceFrom_upd_other fun_upd_same del: fun_upd_apply)
  next
    case (Suc i')
    from Cons.prems Suc have i': "i' < length xs"
      by simp
    have later: "\<forall>j. i' < j \<and> j < length xs \<longrightarrow> K (Suc n + j) \<noteq> K (Suc n + i')"
    proof (intro allI impI)
      fix j assume "i' < j \<and> j < length xs"
      then have "i < Suc j \<and> Suc j < length (x # xs)"
        using Suc by simp
      with Cons.prems(2) have "K (n + Suc j) \<noteq> K (n + i)"
        by blast
      then show "K (Suc n + j) \<noteq> K (Suc n + i')"
        using Suc by simp
    qed
    from Cons.IH [OF i' later] show ?thesis
      using Suc by (simp del: fun_upd_apply)
  qed
qed

lemma propertyKey_image:
  "propertyKey keys ` {0..<n} =
     set (take n keys) \<union> (if length keys < n then {''undefined''} else {})"
proof (cases "length keys < n")
  case False
  then have n: "n \<le> length keys" by simp
  have "propertyKey keys ` {0..<n} = (!) keys ` {0..<n}"
    using n by (intro image_cong) (auto simp: propertyKey_def)
  also have "\<dots> = set (take n keys)"
    using n by (simp add: nth_image)
  finally show ?thesis using False by simp
next
  case True
  have split: "{0..<n} = {0..<length keys} \<union> {length keys..<n}"
    using True by auto
  have a: "propertyKey keys ` {0..<length keys} = set keys"
  proof -
    have "propertyKey keys ` {0..<length keys} = (!) keys ` {0..<length keys}"
      by (intro image_cong) (auto simp: propertyKey_def)
    then show ?thesis by (simp add: nth_image)
  qed
  have b: "propertyKey keys ` {length keys..<n} = {''undefined''}"
    using True by (auto simp: propertyKey_def image_def)
  show ?thesis
    using True by (simp add: split image_Un a b del: atLeastLessThan_iff)
qed

lemma convertTableToRecordArray_filter_map:
  "convertTableToRecordArray table opts =
     map (\<lambda>cells. keysAndElementsMapperOption opts (tableHeaders table opts) cells
                    (cellValueConverter opts))
       (filter (\<lambda>cells. length cells = length (tableHeaders table opts)) (tableRows table opts))"
  by (simp add: convertTableToRecordArray_def Let_def reduce_def reduceFrom_filter_map)

section \<open>Facts about the reduction of the document extractor\<close>

lemma addTable_index: "addTable opts acc entry i = addTable opts acc entry j"
  by (simp add: addTable_def)

lemma addTable_None: "addTable opts acc (k, None) i = acc"
  by (simp add: addTable_def)

lemma addTable_Some:
  "addTable opts acc (k, Some t) i = acc(k \<mapsto> convertTableToRecordArray t opts)"
  by (simp add: addTable_def)

lemma collect_index: "reduceFrom (addTable opts) m n es = reduceFrom (addTable opts) m n' es"
proof (induction es arbitrary: m n n')
  case Nil
  then show ?case by simp
next
  case (Cons e es)
  have "addTable opts m e n = addTable opts m e n'"
    by (rule addTable_index)
  then show ?case
    using Cons.IH [of "addTable opts m e n'" "Suc n" "Suc n'"] by simp
qed

lemma collect_skip:
  "reduceFrom (addTable opts) m n (xs @ (k, None) # ys) = reduceFrom (addTable opts) m n (xs @ ys)"
proof -
  have "reduceFrom (addTable opts) m n (xs @ (k, None) # ys) =
          reduceFrom (addTable opts) (reduceFrom (addTable opts) m n xs) (Suc (n + length xs)) ys"
    by (simp add: reduceFrom_append addTable_None)
  also have "\<dots> = reduceFrom (addTable opts) (reduceFrom (addTable opts) m n xs) (n + length xs) ys"
    by (rule collect_index)
  finally show ?thesis
    by (simp add: reduceFrom_append)
qed

lemma collect_other:
  "\<forall>t. (k, Some t) \<notin> set es \<Longrightarrow> reduceFrom (addTable opts) m n es k = m k"
proof (induction es arbitrary: m n)
  case Nil
  then show ?case by simp
next
  case (Cons e es)
  obtain k' t' where e: "e = (k', t')"
    by (cases e)
  from Cons.prems have rest: "\<forall>t. (k, Some t) \<notin> set es"
    by simp
  have "addTable opts m e n k = m k"
  proof (cases t')
    case None
    then show ?thesis by (simp add: e addTable_None)
  next
    case (Some t)
    with Cons.prems e have "k' \<noteq> k" by auto
    then show ?thesis by (simp add: e Some addTable_Some)
  qed
  then show ?case
    by (simp add: Cons.IH [OF rest])
qed

lemma collect_dom:
  "dom (reduceFrom (addTable opts) m n es) = dom m \<union> {k. \<exists>t. (k, Some t) \<in> set es}"
proof (induction es arbitrary: m n)
  case Nil
  then show ?case by simp
next
  case (Cons e es)
  obtain k' t' where e: "e = (k', t')"
    by (cases e)
  show ?case
  proof (cases t')
    case None
    then show ?thesis
      by (auto simp: e addTable_None Cons.IH)
  next
    case (Some t)
    then show ?thesis
      by (auto simp: e addTable_Some Cons.IH simp del: fun_upd_apply)
  qed
qed

lemma collect_last_write:
  "j < length es \<Longrightarrow> es ! j = (k, Some t) \<Longrightarrow>
   (\<forall>l t'. j < l \<and> l < length es \<longrightarrow> es ! l \<noteq> (k, Some t')) \<Longrightarrow>
     reduceFrom (addTable opts) m n es k = Some (convertTableToRecordArray t opts)"
proof (induction es arbitrary: m n j)
  case Nil
  then show ?case by simp
next
  case (Cons e es)
  show ?case
  proof (cases j)
    case 0
    with Cons.prems have e: "e = (k, Some t)"
      by simp
    have "\<forall>t'. (k, Some t') \<notin> set es"
    proof (intro allI notI)
      fix t' assume "(k, Some t') \<in> set es"
      then obtain l where "l < length es" "es ! l = (k, Some t')"
        by (auto simp: in_set_conv_nth)
      then have "j < Suc l \<and> Suc l < length (e # es)" "(e # es) ! Suc l = (k, Some t')"
        using 0 by simp_all
      with Cons.prems(3) show False
        by blast
    qed
    then show ?thesis
      by (simp add: e addTable_Some collect_other)
  next
    case (Suc j')
    from Cons.prems Suc have j': "j' < length es" and at: "es ! j' = (k, Some t)"
      by simp_all
    have later: "\<forall>l t'. j' < l \<and> l < length es \<longrightarrow> es ! l \<noteq> (k, Some t')"
    proof (intro allI impI)
      fix l t' assume "j' < l \<and> l < length es"
      then have "j < Suc l \<and> Suc l < length (e # es)"
        using Suc by simp
      with Cons.prems(3) have "(e # es) ! Suc l \<noteq> (k, Some t')"
        by blast
      then show "es ! l \<noteq> (k, Some t')"
        by simp
    qed
    from Cons.IH [OF j' at later] show ?thesis
      by simp
  qed
qed

lemma tableEntries_length:
  "length (tableEntries opts) = length (querySelectorAll (root opts) (scopeSelector opts))"
  by (simp add: tableEntries_def arrayFrom_length)

lemma tableEntries_nth:
  "i < length (querySelectorAll (root opts) (scopeSelector opts)) \<Longrightarrow>
     tableEntries opts ! i =
       (tableKeyConverter opts
          (querySelector (querySelectorAll (root opts) (scopeSelector opts) ! i)
             (idElementSelector opts)) i,
        querySelector (querySelectorAll (root opts) (scopeSelector opts) ! i)
          (tableSelector opts))"
  by (simp add: tableEntries_def arrayFrom_nth)

section \<open>Facts about the example documents\<close>

lemma example_keys:
  "kebabCaseToCamelCase ''latest-ipod'' = ''latestIpod''"
  "kebabCaseToCamelCase ''no-table'' = ''noTable''"
  "idToCamelCaseConverter None (Suc (Suc 0)) = ''table2''"
  by code_simp+

lemma example_headers:
  "textContentToCamelCaseConverter (Some (cellElement ''Share'')) i = ''share''"
  "textContentToCamelCaseConverter (Some (cellElement ''OS + Browser'')) i = ''osAndBrowser''"
  by code_simp+

lemma example_labels:
  "kebabCaseToCamelCase (replacePlus (replaceWhiteSpaceRuns (trim ''Most Common Desktop''))) =
     ''mostCommonDesktop''"
  "kebabCaseToCamelCase (replacePlus (replaceWhiteSpaceRuns (trim ''OS + Browser''))) =
     ''osAndBrowser''"
  by code_simp+

lemma exampleDocument_entries:
  "tableEntries (defaultOptions exampleDocument) =
     [(''latestIpod'', Some exampleTable), (''latestIpod'', Some shortRowTable),
      (''table2'', Some exampleTable), (''noTable'', None)]"
  by (simp add: tableEntries_def defaultOptions_def exampleDocument_def documentElement_def
      containerElement_def headingElement_def arrayFrom_def querySelector_def
      elementId_def example_keys
      idToCamelCaseConverter_def [where element = "Some e" for e])

lemma exampleTable_rows:
  "tableHeaders exampleTable (defaultOptions d) = [''share'', ''osAndBrowser'']"
  "tableRows exampleTable (defaultOptions d) =
     [[cellElement ''10'', cellElement ''Linux''], [cellElement ''20'', cellElement ''Mac'']]"
  "tableHeaders shortRowTable (defaultOptions d) = [''share'', ''osAndBrowser'']"
  "tableRows shortRowTable (defaultOptions d) = [[cellElement ''30'']]"
  by (simp_all add: tableHeaders_def tableRows_def defaultOptions_def exampleTable_def
      shortRowTable_def tableElement_def rowElement_def arrayFrom_def example_headers)

lemma duplicateHeaderTable_rows:
  "tableHeaders duplicateHeaderTable (defaultOptions d) = [''name'', ''name'']"
  "tableRows duplicateHeaderTable (defaultOptions d) =
     [[cellElement ''first'', cellElement ''second'']]"
proof -
  have name: "textContentToCamelCaseConverter (Some (cellElement ''Name'')) i = ''name''" for i
    by code_simp
  show "tableHeaders duplicateHeaderTable (defaultOptions d) = [''name'', ''name'']"
    by (simp add: tableHeaders_def defaultOptions_def duplicateHeaderTable_def tableElement_def
        arrayFrom_def name)
  show "tableRows duplicateHeaderTable (defaultOptions d) =
     [[cellElement ''first'', cellElement ''second'']]"
    by (simp add: tableRows_def defaultOptions_def duplicateHeaderTable_def tableElement_def
        rowElement_def arrayFrom_def)
qed

lemma exampleDocument_containers:
  "length (querySelectorAll (root (defaultOptions exampleDocument))
             (scopeSelector (defaultOptions exampleDocument))) = 4"
  "querySelector
     (querySelectorAll (root (defaultOptions exampleDocument))
        (scopeSelector (defaultOptions exampleDocument)) ! 3)
     (tableSelector (defaultOptions exampleDocument)) = None"
  by (simp_all add: defaultOptions_def exampleDocument_def documentElement_def
      containerElement_def querySelector_def)

lemma exampleTable_row_count:
  "length (querySelectorAll exampleTable (rowSelector (defaultOptions d))) = 2"
  by (simp add: defaultOptions_def exampleTable_def tableElement_def)

lemma exampleDocument_no_later_entry:
  "\<forall>l t'. 1 < l \<and> l < length (tableEntries (defaultOptions exampleDocument)) \<longrightarrow>
      tableEntries (defaultOptions exampleDocument) ! l \<noteq> (''latestIpod'', Some t')"
proof (intro allI impI)
  fix l :: nat and t'
  assume "1 < l \<and> l < length (tableEntries (defaultOptions exampleDocument))"
  then have "l = 2 \<or> l = 3"
    by (simp add: exampleDocument_entries) arith
  then show "tableEntries (defaultOptions exampleDocument) ! l \<noteq> (''latestIpod'', Some t')"
    by (auto simp: exampleDocument_entries)
qed

lemma collisionDocument_entries:
  "tableEntries (defaultOptions tablelessCollisionDocument) =
     [(''latestIpod'', Some exampleTable), (''latestIpod'', None)]"
  "tableEntries (defaultOptions overwrittenTableDocument) =
     [(''latestIpod'', Some shortRowTable), (''latestIpod'', Some exampleTable)]"
  by (simp_all add: tableEntries_def defaultOptions_def tablelessCollisionDocument_def
      overwrittenTableDocument_def documentElement_def
      containerElement_def headingElement_def arrayFrom_def querySelector_def
      elementId_def example_keys
      idToCamelCaseConverter_def [where element = "Some e" for e])

lemma example_record_counts:
  "length (convertTableToRecordArray exampleTable (defaultOptions d)) = 2"
  "convertTableToRecordArray shortRowTable (defaultOptions d) = []"
  by (simp_all add: convertTableToRecordArray_filter_map exampleTable_rows)

lemma tablelessCollisionDocument_no_later_entry:
  "\<forall>l t'. 0 < l \<and> l < length (tableEntries (defaultOptions tablelessCollisionDocument)) \<longrightarrow>
      tableEntries (defaultOptions tablelessCollisionDocument) ! l \<noteq> (''latestIpod'', Some t')"
proof (intro allI impI)
  fix l :: nat and t'
  assume "0 < l \<and> l < length (tableEntries (defaultOptions tablelessCollisionDocument))"
  then have "l = 1"
    by (simp add: collisionDocument_entries)
  then show "tableEntries (defaultOptions tablelessCollisionDocument) ! l \<noteq> (''latestIpod'', Some t')"
    by (simp add: collisionDocument_entries)
qed

section \<open>Properties of the string converters\<close>

text \<open>
  C3 (as amended). \<open>kebabCaseToCamelCase\<close> trims and lower-cases the whole string and
  then treats each hyphen by the character after it. A hyphen immediately followed by a
  letter of \<open>[a-z]\<close> is removed and that letter is upper-cased; a hyphen followed by any
  other character, or ending the string, is kept. When every hyphen of the trimmed,
  lower-cased string stands before such a letter, the result is what removing every
  hyphen and upper-casing the following character gives, and it holds no hyphen.
\<close>

theorem kebabCaseToCamelCase_hyphens:
  "(hyphensBeforeLetters (toLowerCase (trim str)) \<longrightarrow>
      kebabCaseToCamelCase str = removeEveryHyphen (toLowerCase (trim str)) \<and>
      CHR ''-'' \<notin> set (kebabCaseToCamelCase str)) \<and>
   (toLowerCase (trim str) = xs @ CHR ''-'' # d # ys \<and> isLowerAZ d \<longrightarrow>
      kebabCaseToCamelCase str =
        replaceHyphenLetter xs @ toUpperCaseChar d # replaceHyphenLetter ys) \<and>
   (toLowerCase (trim str) = xs @ CHR ''-'' # d # ys \<and> \<not> isLowerAZ d \<longrightarrow>
      kebabCaseToCamelCase str =
        replaceHyphenLetter xs @ CHR ''-'' # replaceHyphenLetter (d # ys)) \<and>
   (toLowerCase (trim str) = xs @ [CHR ''-''] \<longrightarrow>
      kebabCaseToCamelCase str = replaceHyphenLetter xs @ [CHR ''-''])"
proof (intro conjI impI)
  assume "hyphensBeforeLetters (toLowerCase (trim str))"
  from replaceHyphenLetter_spec [OF this, THEN conjunct1]
  show "kebabCaseToCamelCase str = removeEveryHyphen (toLowerCase (trim str))"
    by (simp only: kebabCaseToCamelCase_def)
next
  assume "hyphensBeforeLetters (toLowerCase (trim str))"
  from replaceHyphenLetter_spec [OF this, THEN conjunct2]
  show "CHR ''-'' \<notin> set (kebabCaseToCamelCase str)"
    by (simp add: kebabCaseToCamelCase_def)
next
  assume a: "toLowerCase (trim str) = xs @ CHR ''-'' # d # ys \<and> isLowerAZ d"
  have "\<not> isLowerAZ (CHR ''-'')"
    by (simp add: isLowerAZ_def)
  then have "replaceHyphenLetter (xs @ CHR ''-'' # d # ys) =
               replaceHyphenLetter xs @ replaceHyphenLetter (CHR ''-'' # d # ys)"
    by (intro replaceHyphenLetter_append) simp
  with a show "kebabCaseToCamelCase str =
        replaceHyphenLetter xs @ toUpperCaseChar d # replaceHyphenLetter ys"
    by (simp add: kebabCaseToCamelCase_def)
next
  assume a: "toLowerCase (trim str) = xs @ CHR ''-'' # d # ys \<and> \<not> isLowerAZ d"
  have "\<not> isLowerAZ (CHR ''-'')"
    by (simp add: isLowerAZ_def)
  then have "replaceHyphenLetter (xs @ CHR ''-'' # d # ys) =
               replaceHyphenLetter xs @ replaceHyphenLetter (CHR ''-'' # d # ys)"
    by (intro replaceHyphenLetter_append) simp
  with a show "kebabCaseToCamelCase str =
        replaceHyphenLetter xs @ CHR ''-'' # replaceHyphenLetter (d # ys)"
    by (simp add: kebabCaseToCamelCase_def)
next
  assume a: "toLowerCase (trim str) = xs @ [CHR ''-'']"
  have "\<not> isLowerAZ (CHR ''-'')"
    by (simp add: isLowerAZ_def)
  then have "replaceHyphenLetter (xs @ [CHR ''-'']) =
               replaceHyphenLetter xs @ replaceHyphenLetter [CHR ''-'']"
    by (intro replaceHyphenLetter_append) simp
  with a show "kebabCaseToCamelCase str = replaceHyphenLetter xs @ [CHR ''-'']"
    by (simp add: kebabCaseToCamelCase_def)
qed

text \<open>The theorem at concrete inputs.\<close>

theorem kebabCaseToCamelCase_hyphens_witness:
  "hyphensBeforeLetters (toLowerCase (trim '' Foo-Bar '')) \<and>
   kebabCaseToCamelCase '' Foo-Bar '' = ''fooBar'' \<and>
   kebabCaseToCamelCase ''my-id'' = ''myId'' \<and>
   kebabCaseToCamelCase ''a-1'' = ''a-1'' \<and>
   kebabCaseToCamelCase ''a-'' = ''a-''"
proof -
  have h1: "hyphensBeforeLetters (toLowerCase (trim '' Foo-Bar ''))"
    by code_simp
  have v1: "removeEveryHyphen (toLowerCase (trim '' Foo-Bar '')) = ''fooBar''"
    by code_simp
  have h2: "toLowerCase (trim ''my-id'') = ''my'' @ CHR ''-'' # CHR ''i'' # ''d'' \<and>
            isLowerAZ (CHR ''i'')"
    by code_simp
  have v2: "replaceHyphenLetter ''my'' @ toUpperCaseChar (CHR ''i'') # replaceHyphenLetter ''d'' =
            ''myId''"
    by code_simp
  have h3: "toLowerCase (trim ''a-1'') = ''a'' @ CHR ''-'' # CHR ''1'' # [] \<and>
            \<not> isLowerAZ (CHR ''1'')"
    by code_simp
  have v3: "replaceHyphenLetter ''a'' @ CHR ''-'' # replaceHyphenLetter [CHR ''1''] = ''a-1''"
    by code_simp
  have h4: "toLowerCase (trim ''a-'') = ''a'' @ [CHR ''-'']"
    by code_simp
  have v4: "replaceHyphenLetter ''a'' @ [CHR ''-''] = ''a-''"
    by code_simp
  have "kebabCaseToCamelCase '' Foo-Bar '' = ''fooBar''"
    using kebabCaseToCamelCase_hyphens [where str = "'' Foo-Bar ''"] h1 v1
    by metis
  moreover have "kebabCaseToCamelCase ''my-id'' = ''myId''"
    using kebabCaseToCamelCase_hyphens
            [where str = "''my-id''" and xs = "''my''" and d = "CHR ''i''" and ys = "''d''"]
          h2 v2
    by metis
  moreover have "kebabCaseToCamelCase ''a-1'' = ''a-1''"
    using kebabCaseToCamelCase_hyphens
            [where str = "''a-1''" and xs = "''a''" and d = "CHR ''1''" and ys = "[]"]
          h3 v3
    by metis
  moreover have "kebabCaseToCamelCase ''a-'' = ''a-''"
    using kebabCaseToCamelCase_hyphens [where str = "''a-''" and xs = "''a''"] h4 v4
    by metis
  ultimately show ?thesis
    using h1 by blast
qed

text \<open>
  C3 as stated fails: the hyphen of \<open>"a-1"\<close> stands before a digit and is kept, where
  removing every hyphen gives \<open>"a1"\<close>.
\<close>

theorem kebabCaseToCamelCase_keeps_hyphen_counterexample:
  "kebabCaseToCamelCase ''a-1'' = ''a-1'' \<and>
   removeEveryHyphen (toLowerCase (trim ''a-1'')) = ''a1''"
  by code_simp

text \<open>
  C6. The label converter is the text content converter followed by the replacement of
  white space, the replacement of \<open>+\<close> and the camelCase transform. A run of white
  space between two other characters becomes one hyphen, a \<open>+\<close> becomes \<open>and\<close>, and
  the labels \<open>"Most Common Desktop"\<close> and \<open>"OS + Browser"\<close> give
  \<open>"mostCommonDesktop"\<close> and \<open>"osAndBrowser"\<close>.
\<close>

theorem textContentToCamelCaseConverter_label:
  "textContentToCamelCaseConverter element index =
     kebabCaseToCamelCase
       (replacePlus (replaceWhiteSpaceRuns (textContentConverter element index))) \<and>
   (ws \<noteq> [] \<and> (\<forall>c\<in>set ws. isWhiteSpace c) \<and> (xs = [] \<or> \<not> isWhiteSpace (last xs)) \<and>
    (ys = [] \<or> \<not> isWhiteSpace (hd ys)) \<longrightarrow>
      replaceWhiteSpaceRuns (xs @ ws @ ys) =
        replaceWhiteSpaceRuns xs @ CHR ''-'' # replaceWhiteSpaceRuns ys) \<and>
   replacePlus (xs @ CHR ''+'' # ys) = replacePlus xs @ ''and'' @ replacePlus ys \<and>
   (textContent e = ''Most Common Desktop'' \<longrightarrow>
      textContentToCamelCaseConverter (Some e) index = ''mostCommonDesktop'') \<and>
   (textContent e = ''OS + Browser'' \<longrightarrow>
      textContentToCamelCaseConverter (Some e) index = ''osAndBrowser'')"
proof (intro conjI impI)
  show "textContentToCamelCaseConverter element index =
     kebabCaseToCamelCase
       (replacePlus (replaceWhiteSpaceRuns (textContentConverter element index)))"
    by (simp add: textContentToCamelCaseConverter_def)
next
  assume a: "ws \<noteq> [] \<and> (\<forall>c\<in>set ws. isWhiteSpace c) \<and> (xs = [] \<or> \<not> isWhiteSpace (last xs)) \<and>
    (ys = [] \<or> \<not> isWhiteSpace (hd ys))"
  then have "replaceWhiteSpaceRuns (xs @ ws @ ys) =
               replaceWhiteSpaceRuns xs @ replaceWhiteSpaceRuns (ws @ ys)"
    by (intro replaceWhiteSpaceRuns_append) auto
  also have "replaceWhiteSpaceRuns (ws @ ys) = CHR ''-'' # replaceWhiteSpaceRuns ys"
    using a by (intro replaceWhiteSpaceRuns_run) auto
  finally show "replaceWhiteSpaceRuns (xs @ ws @ ys) =
        replaceWhiteSpaceRuns xs @ CHR ''-'' # replaceWhiteSpaceRuns ys" .
next
  show "replacePlus (xs @ CHR ''+'' # ys) = replacePlus xs @ ''and'' @ replacePlus ys"
    by (simp add: replacePlus_def)
next
  assume "textContent e = ''Most Common Desktop''"
  then show "textContentToCamelCaseConverter (Some e) index = ''mostCommonDesktop''"
    by (simp only: textContentToCamelCaseConverter_def textContentConverter_def
        option.map option.case example_labels)
next
  assume "textContent e = ''OS + Browser''"
  then show "textContentToCamelCaseConverter (Some e) index = ''osAndBrowser''"
    by (simp only: textContentToCamelCaseConverter_def textContentConverter_def
        option.map option.case example_labels)
qed

text \<open>The theorem at concrete inputs.\<close>

theorem textContentToCamelCaseConverter_label_witness:
  "replaceWhiteSpaceRuns ''Most  Common'' = ''Most-Common'' \<and>
   replacePlus ''OS-+-Browser'' = ''OS-and-Browser'' \<and>
   textContentToCamelCaseConverter (Some (cellElement ''Most Common Desktop'')) 0 =
     ''mostCommonDesktop'' \<and>
   textContentToCamelCaseConverter (Some (cellElement ''OS + Browser'')) 1 = ''osAndBrowser''"
proof -
  have h1: "''  '' \<noteq> [] \<and> (\<forall>c\<in>set ''  ''. isWhiteSpace c) \<and>
      (''Most'' = [] \<or> \<not> isWhiteSpace (last ''Most'')) \<and>
      (''Common'' = [] \<or> \<not> isWhiteSpace (hd ''Common''))"
    by code_simp
  have v1: "replaceWhiteSpaceRuns ''Most'' @ CHR ''-'' # replaceWhiteSpaceRuns ''Common'' =
      ''Most-Common''"
    by code_simp
  have v2: "replacePlus ''OS-'' @ ''and'' @ replacePlus ''-Browser'' = ''OS-and-Browser''"
    by code_simp
  have h3: "textContent (cellElement ''Most Common Desktop'') = ''Most Common Desktop''"
    and h4: "textContent (cellElement ''OS + Browser'') = ''OS + Browser''"
    by (simp_all add: cellElement_def)
  note a = textContentToCamelCaseConverter_label
      [where xs = "''Most''" and ws = "''  ''" and ys = "''Common''"
         and e = "cellElement ''Most Common Desktop''" and index = 0]
  note b = textContentToCamelCaseConverter_label
      [where xs = "''OS-''" and ys = "''-Browser''"
         and e = "cellElement ''OS + Browser''" and index = 1]
  from a h1 v1 have "replaceWhiteSpaceRuns (''Most'' @ ''  '' @ ''Common'') = ''Most-Common''"
    by metis
  then have "replaceWhiteSpaceRuns ''Most  Common'' = ''Most-Common''"
    by simp
  moreover from b v2 have "replacePlus (''OS-'' @ CHR ''+'' # ''-Browser'') = ''OS-and-Browser''"
    by metis
  then have "replacePlus ''OS-+-Browser'' = ''OS-and-Browser''"
    by simp
  moreover from a h3
  have "textContentToCamelCaseConverter (Some (cellElement ''Most Common Desktop'')) 0 =
     ''mostCommonDesktop''"
    by metis
  moreover from b h4
  have "textContentToCamelCaseConverter (Some (cellElement ''OS + Browser'')) 1 = ''osAndBrowser''"
    by metis
  ultimately show ?thesis
    by blast
qed

text \<open>
  C2. What the table-key converter returns on each kind of argument. For an id-bearing
  sub-element with an \<open>id\<close> attribute it is the camelCase transform of the id, and for
  a missing sub-element (\<open>null\<close>) it is \<open>table\<close> followed by the decimal index, so
  a container at position \<open>i\<close> without an id-bearing sub-element gets the key
  \<open>table\<close>\<open>i\<close>, as the claim says. For a sub-element that is present and has no
  \<open>id\<close> attribute the claim's fallback is not taken: the \<open>id\<close> property is the
  empty string, which \<open>??\<close> keeps, and the key is the empty string.
\<close>

theorem idToCamelCaseConverter_missing_id:
  "(idAttribute e = None \<longrightarrow>
      idToCamelCaseConverter (Some e) i = [] \<and>
      idToCamelCaseConverter (Some e) i \<noteq> ''table'' @ decimal i) \<and>
   idToCamelCaseConverter None i = ''table'' @ decimal i \<and>
   (idAttribute e = Some s \<longrightarrow> idToCamelCaseConverter (Some e) i = kebabCaseToCamelCase s) \<and>
   (i < length (querySelectorAll (root opts) (scopeSelector opts)) \<and>
    tableKeyConverter opts = idToCamelCaseConverter \<and>
    querySelector (querySelectorAll (root opts) (scopeSelector opts) ! i)
      (idElementSelector opts) = None \<longrightarrow>
      fst (tableEntries opts ! i) = ''table'' @ decimal i) \<and>
   (i < length (querySelectorAll (root opts) (scopeSelector opts)) \<and>
    tableKeyConverter opts = idToCamelCaseConverter \<and>
    querySelector (querySelectorAll (root opts) (scopeSelector opts) ! i)
      (idElementSelector opts) = Some e \<and> idAttribute e = None \<longrightarrow>
      fst (tableEntries opts ! i) = [])"
proof (intro conjI impI)
  have empty: "idToCamelCaseConverter (Some e) i = []" if "idAttribute e = None" for e
    using that
    by (simp add: idToCamelCaseConverter_def elementId_def kebabCaseToCamelCase_def trim_def
        toLowerCase_def)
  show none: "idToCamelCaseConverter None i = ''table'' @ decimal i"
    by (simp only: idToCamelCaseConverter_def option.map option.case
        kebabCaseToCamelCase_fallback)
  {
    assume "idAttribute e = None"
    then show "idToCamelCaseConverter (Some e) i = []"
      by (rule empty)
  next
    assume "idAttribute e = None"
    then show "idToCamelCaseConverter (Some e) i \<noteq> ''table'' @ decimal i"
      by (simp add: empty)
  next
    assume "idAttribute e = Some s"
    then show "idToCamelCaseConverter (Some e) i = kebabCaseToCamelCase s"
      by (simp add: idToCamelCaseConverter_def elementId_def)
  next
    assume "i < length (querySelectorAll (root opts) (scopeSelector opts)) \<and>
      tableKeyConverter opts = idToCamelCaseConverter \<and>
      querySelector (querySelectorAll (root opts) (scopeSelector opts) ! i)
        (idElementSelector opts) = None"
    then show "fst (tableEntries opts ! i) = ''table'' @ decimal i"
      by (simp add: tableEntries_nth none)
  next
    assume "i < length (querySelectorAll (root opts) (scopeSelector opts)) \<and>
      tableKeyConverter opts = idToCamelCaseConverter \<and>
      querySelector (querySelectorAll (root opts) (scopeSelector opts) ! i)
        (idElementSelector opts) = Some e \<and> idAttribute e = None"
    then show "fst (tableEntries opts ! i) = []"
      by (simp add: tableEntries_nth empty)
  }
qed

text \<open>The theorem at concrete inputs.\<close>

theorem idToCamelCaseConverter_missing_id_witness:
  "idAttribute (headingElement None ''Heading'') = None \<and>
   idToCamelCaseConverter (Some (headingElement None ''Heading'')) 2 = [] \<and>
   idToCamelCaseConverter None 2 = ''table2'' \<and>
   idToCamelCaseConverter (Some (headingElement (Some ''latest-ipod'') ''First'')) 2 =
     ''latestIpod'' \<and>
   fst (tableEntries (defaultOptions exampleDocument) ! 2) = ''table2'' \<and>
   fst (tableEntries (defaultOptions missingIdDocument) ! 2) = []"
proof -
  have h0: "idAttribute (headingElement None ''Heading'') = None"
    by (simp add: headingElement_def)
  have h1: "idAttribute (headingElement (Some ''latest-ipod'') ''First'') = Some ''latest-ipod''"
    by (simp add: headingElement_def)
  have d: "''table'' @ decimal 2 = ''table2''"
    by code_simp
  have h3: "2 < length (querySelectorAll (root (defaultOptions exampleDocument))
                 (scopeSelector (defaultOptions exampleDocument))) \<and>
    tableKeyConverter (defaultOptions exampleDocument) = idToCamelCaseConverter \<and>
    querySelector (querySelectorAll (root (defaultOptions exampleDocument))
                     (scopeSelector (defaultOptions exampleDocument)) ! 2)
      (idElementSelector (defaultOptions exampleDocument)) = None"
    by (simp add: defaultOptions_def exampleDocument_def documentElement_def
        containerElement_def querySelector_def)
  have h4: "2 < length (querySelectorAll (root (defaultOptions missingIdDocument))
                 (scopeSelector (defaultOptions missingIdDocument))) \<and>
    tableKeyConverter (defaultOptions missingIdDocument) = idToCamelCaseConverter \<and>
    querySelector (querySelectorAll (root (defaultOptions missingIdDocument))
                     (scopeSelector (defaultOptions missingIdDocument)) ! 2)
      (idElementSelector (defaultOptions missingIdDocument)) =
        Some (headingElement None ''Heading'') \<and>
    idAttribute (headingElement None ''Heading'') = None"
    by (simp add: defaultOptions_def missingIdDocument_def documentElement_def
        containerElement_def querySelector_def headingElement_def)
  note a = idToCamelCaseConverter_missing_id
      [where e = "headingElement None ''Heading''" and i = 2
         and opts = "defaultOptions missingIdDocument"]
  note b = idToCamelCaseConverter_missing_id
      [where e = "headingElement (Some ''latest-ipod'') ''First''" and s = "''latest-ipod''"
         and i = 2 and opts = "defaultOptions exampleDocument"]
  from a h0 have "idToCamelCaseConverter (Some (headingElement None ''Heading'')) 2 = []"
    by metis
  moreover from a d have "idToCamelCaseConverter None 2 = ''table2''"
    by metis
  moreover from b h1
  have "idToCamelCaseConverter (Some (headingElement (Some ''latest-ipod'') ''First'')) 2 =
     ''latestIpod''"
    by (metis example_keys(1))
  moreover from b h3 d have "fst (tableEntries (defaultOptions exampleDocument) ! 2) = ''table2''"
    by metis
  moreover from a h4 have "fst (tableEntries (defaultOptions missingIdDocument) ! 2) = []"
    by metis
  ultimately show ?thesis
    using h0 by blast
qed

text \<open>
  C9. Applied to any element or \<open>null\<close> and any index, each default converter returns
  a string and raises nothing: with every raising operation modelled, the result is
  never a \<open>TypeError\<close> and is the string that the converter of the previous sections
  computes. For \<open>null\<close> and \<open>undefined\<close> the text content converter returns the
  empty string.
\<close>

theorem default_converters_total:
  "textContentConverterE (elementOrNull element) index =
     Inr (JSString (textContentConverter element index)) \<and>
   textContentToCamelCaseConverterE (elementOrNull element) index =
     Inr (JSString (textContentToCamelCaseConverter element index)) \<and>
   idToCamelCaseConverterE (elementOrNull element) index =
     Inr (JSString (idToCamelCaseConverter element index)) \<and>
   textContentConverterE JSUndefined index = Inr (JSString []) \<and>
   textContentConverter None index = [] \<and>
   textContentToCamelCaseConverter None index = [] \<and>
   idToCamelCaseConverter None index = ''table'' @ decimal index \<and>
   textContentConverter (Some e) index = trim (textContent e)"
proof (intro conjI)
  show "textContentConverterE (elementOrNull element) index =
     Inr (JSString (textContentConverter element index))"
    by (rule textContentConverterE_value)
  show "textContentToCamelCaseConverterE (elementOrNull element) index =
     Inr (JSString (textContentToCamelCaseConverter element index))"
    by (simp add: textContentToCamelCaseConverterE_def textContentConverterE_value bindE_def
        callStringMethod_def kebabCaseToCamelCaseE_string textContentToCamelCaseConverter_def)
  show "idToCamelCaseConverterE (elementOrNull element) index =
     Inr (JSString (idToCamelCaseConverter element index))"
    by (cases element)
      (simp_all add: idToCamelCaseConverterE_def elementOrNull_def bindE_def optionalChain_def
        getProperty_def nullishCoalesce_def kebabCaseToCamelCaseE_string
        idToCamelCaseConverter_def)
  show "textContentConverterE JSUndefined index = Inr (JSString [])"
    by (simp add: textContentConverterE_def bindE_def optionalChain_def nullishCoalesce_def)
  show "textContentConverter None index = []"
    by (simp add: textContentConverter_def)
  show "textContentToCamelCaseConverter None index = []"
    by (simp add: textContentToCamelCaseConverter_def textContentConverter_def
        replacePlus_def kebabCaseToCamelCase_def trim_def toLowerCase_def)
  show "idToCamelCaseConverter None index = ''table'' @ decimal index"
    by (simp only: idToCamelCaseConverter_def option.map option.case
        kebabCaseToCamelCase_fallback)
  show "textContentConverter (Some e) index = trim (textContent e)"
    by (simp add: textContentConverter_def)
qed

text \<open>The theorem at concrete inputs.\<close>

theorem default_converters_total_witness:
  "textContentConverterE (JSElement (cellElement '' OS + Browser '')) 0 =
     Inr (JSString ''OS + Browser'') \<and>
   textContentToCamelCaseConverterE (JSElement (cellElement '' OS + Browser '')) 0 =
     Inr (JSString ''osAndBrowser'') \<and>
   idToCamelCaseConverterE (JSElement (headingElement (Some ''latest-ipod'') ''First'')) 0 =
     Inr (JSString ''latestIpod'') \<and>
   textContentConverterE JSNull 0 = Inr (JSString []) \<and>
   textContentToCamelCaseConverterE JSNull 0 = Inr (JSString []) \<and>
   idToCamelCaseConverterE JSNull 0 = Inr (JSString ''table0'')"
proof -
  have v: "textContentConverter (Some (cellElement '' OS + Browser '')) 0 = ''OS + Browser''"
    "textContentToCamelCaseConverter (Some (cellElement '' OS + Browser '')) 0 = ''osAndBrowser''"
    "idToCamelCaseConverter (Some (headingElement (Some ''latest-ipod'') ''First'')) 0 =
       ''latestIpod''"
    "''table'' @ decimal 0 = ''table0''"
    by code_simp+
  have j: "elementOrNull (Some (cellElement '' OS + Browser '')) =
             JSElement (cellElement '' OS + Browser '')"
    "elementOrNull (Some (headingElement (Some ''latest-ipod'') ''First'')) =
             JSElement (headingElement (Some ''latest-ipod'') ''First'')"
    "elementOrNull None = JSNull"
    by (simp_all add: elementOrNull_def)
  note a = default_converters_total
      [where element = "Some (cellElement '' OS + Browser '')" and index = 0]
  note b = default_converters_total
      [where element = "Some (headingElement (Some ''latest-ipod'') ''First'')" and index = 0]
  note c = default_converters_total [where element = None and index = 0]
  from a v j have "textContentConverterE (JSElement (cellElement '' OS + Browser '')) 0 =
     Inr (JSString ''OS + Browser'')"
    by metis
  moreover from a v j
  have "textContentToCamelCaseConverterE (JSElement (cellElement '' OS + Browser '')) 0 =
     Inr (JSString ''osAndBrowser'')"
    by metis
  moreover from b v j
  have "idToCamelCaseConverterE (JSElement (headingElement (Some ''latest-ipod'') ''First'')) 0 =
     Inr (JSString ''latestIpod'')"
    by metis
  moreover from c j have "textContentConverterE JSNull 0 = Inr (JSString [])"
    by metis
  moreover from c j have "textContentToCamelCaseConverterE JSNull 0 = Inr (JSString [])"
    by metis
  moreover from c v j have "idToCamelCaseConverterE JSNull 0 = Inr (JSString ''table0'')"
    by metis
  ultimately show ?thesis
    by blast
qed

section \<open>Properties of the key/value mapper\<close>

text \<open>
  C1 (as amended). The entries of the mapper's result. When there are no more elements
  than keys, the result has an entry exactly for the keys at the paired indices
  \<open>i < length elements\<close>. When there are more elements than keys, every element past
  the last key is stored under the property name \<open>"undefined"\<close>: the result has an
  entry for every key and one for \<open>"undefined"\<close>, whose value is the converter's value
  for the last element and its index.
\<close>

theorem keysAndElementsMapper_entries:
  "(length elements \<le> length keys \<longrightarrow>
      dom (keysAndElementsMapper keys elements conv) = set (take (length elements) keys)) \<and>
   (length keys < length elements \<longrightarrow>
      dom (keysAndElementsMapper keys elements conv) = set keys \<union> {''undefined''} \<and>
      keysAndElementsMapper keys elements conv ''undefined'' =
        Some (conv (Some (last elements)) (length elements - 1)))"
proof (intro conjI impI)
  assume "length elements \<le> length keys"
  then show "dom (keysAndElementsMapper keys elements conv) = set (take (length elements) keys)"
    by (simp add: keysAndElementsMapper_def reduce_def propertyKey_image reduceFrom_upd_dom)
next
  assume "length keys < length elements"
  then show "dom (keysAndElementsMapper keys elements conv) = set keys \<union> {''undefined''}"
    by (simp add: keysAndElementsMapper_def reduce_def propertyKey_image reduceFrom_upd_dom)
next
  assume long: "length keys < length elements"
  define i where "i = length elements - 1"
  from long have ne: "elements \<noteq> []"
    by auto
  have i: "i < length elements" and ik: "propertyKey keys i = ''undefined''"
    using long by (auto simp: i_def propertyKey_def)
  have el: "elements ! i = last elements"
    using ne by (simp add: i_def last_conv_nth)
  have "reduceFrom (\<lambda>acc e j. acc(propertyKey keys j \<mapsto> conv (Some e) j)) Map.empty 0 elements
          (propertyKey keys (0 + i)) = Some (conv (Some (elements ! i)) (0 + i))"
    using i by (intro reduceFrom_upd_last_write) (auto simp: i_def)
  then show "keysAndElementsMapper keys elements conv ''undefined'' =
        Some (conv (Some (last elements)) (length elements - 1))"
    using ik el by (simp add: keysAndElementsMapper_def reduce_def i_def)
qed

text \<open>The theorem at concrete inputs.\<close>

theorem keysAndElementsMapper_entries_witness:
  "length [cellElement ''x''] \<le> length [''a'', ''b''] \<and>
   dom (keysAndElementsMapper [''a'', ''b''] [cellElement ''x''] textContentConverter) = {''a''} \<and>
   length [''a''] < length [cellElement ''x'', cellElement ''y''] \<and>
   dom (keysAndElementsMapper [''a''] [cellElement ''x'', cellElement ''y''] textContentConverter) =
     {''undefined'', ''a''} \<and>
   keysAndElementsMapper [''a''] [cellElement ''x'', cellElement ''y''] textContentConverter
     ''undefined'' = Some ''y''"
  using keysAndElementsMapper_entries
          [where elements = "[cellElement ''x'']" and keys = "[''a'', ''b'']"
             and conv = textContentConverter]
        keysAndElementsMapper_entries
          [where elements = "[cellElement ''x'', cellElement ''y'']" and keys = "[''a'']"
             and conv = textContentConverter]
  by (simp add: textContentConverter_def cellElement_def trim_def isWhiteSpace_def)

text \<open>
  C1 as stated fails: with one key and two elements the result has an entry that belongs
  to no key, the one named \<open>"undefined"\<close>.
\<close>

theorem keysAndElementsMapper_out_of_range_counterexample:
  "length [''a''] < length [cellElement ''x'', cellElement ''y''] \<and>
   keysAndElementsMapper [''a''] [cellElement ''x'', cellElement ''y''] textContentConverter
     ''undefined'' = Some ''y'' \<and>
   ''undefined'' \<notin> set [''a'']"
  by (simp add: keysAndElementsMapper_def reduce_def propertyKey_def textContentConverter_def
      cellElement_def trim_def isWhiteSpace_def)

text \<open>
  C8. The last cell paired with a key wins: when no later paired index carries the same
  key as index \<open>i\<close>, the record maps that key to the converter's value for element
  \<open>i\<close> (and its index), whatever earlier cells were paired with the same key. The
  table converter does not reject such a row: every row with as many cells as there are
  headers has its record in the output, whether or not header keys repeat.
\<close>

theorem keysAndElementsMapper_last_cell_wins:
  "(length elements \<le> length keys \<and> i < length elements \<and>
    (\<forall>j. i < j \<and> j < length elements \<longrightarrow> keys ! j \<noteq> keys ! i) \<longrightarrow>
      keysAndElementsMapper keys elements conv (keys ! i) = Some (conv (Some (elements ! i)) i)) \<and>
   (cells \<in> set (tableRows table opts) \<and> length cells = length (tableHeaders table opts) \<longrightarrow>
      keysAndElementsMapperOption opts (tableHeaders table opts) cells (cellValueConverter opts)
        \<in> set (convertTableToRecordArray table opts))"
proof (intro conjI impI)
  assume a: "length elements \<le> length keys \<and> i < length elements \<and>
    (\<forall>j. i < j \<and> j < length elements \<longrightarrow> keys ! j \<noteq> keys ! i)"
  then have "\<forall>j. i < j \<and> j < length elements \<longrightarrow>
               propertyKey keys (0 + j) \<noteq> propertyKey keys (0 + i)"
    by (auto simp: propertyKey_def)
  with a
  have "reduceFrom (\<lambda>acc e j. acc(propertyKey keys j \<mapsto> conv (Some e) j)) Map.empty 0 elements
          (propertyKey keys (0 + i)) = Some (conv (Some (elements ! i)) (0 + i))"
    by (intro reduceFrom_upd_last_write) auto
  moreover have "propertyKey keys i = keys ! i"
    using a by (simp add: propertyKey_def)
  ultimately show "keysAndElementsMapper keys elements conv (keys ! i) =
      Some (conv (Some (elements ! i)) i)"
    by (simp add: keysAndElementsMapper_def reduce_def)
next
  assume "cells \<in> set (tableRows table opts) \<and> length cells = length (tableHeaders table opts)"
  then show "keysAndElementsMapperOption opts (tableHeaders table opts) cells
      (cellValueConverter opts) \<in> set (convertTableToRecordArray table opts)"
    by (auto simp: convertTableToRecordArray_filter_map)
qed

text \<open>The theorem at concrete inputs.\<close>

theorem keysAndElementsMapper_last_cell_wins_witness:
  "tableHeaders duplicateHeaderTable (defaultOptions exampleDocument) = [''name'', ''name''] \<and>
   keysAndElementsMapper [''name'', ''name''] [cellElement ''first'', cellElement ''second'']
     textContentConverter ''name'' = Some ''second'' \<and>
   keysAndElementsMapper [''name'', ''name''] [cellElement ''first'', cellElement ''second'']
     textContentConverter
     \<in> set (convertTableToRecordArray duplicateHeaderTable (defaultOptions exampleDocument))"
proof -
  note dup = keysAndElementsMapper_last_cell_wins
      [where elements = "[cellElement ''first'', cellElement ''second'']"
         and keys = "[''name'', ''name'']" and i = 1 and conv = textContentConverter
         and cells = "[cellElement ''first'', cellElement ''second'']"
         and table = duplicateHeaderTable and opts = "defaultOptions exampleDocument"]
  have v: "textContentConverter (Some (cellElement ''second'')) 1 = ''second''"
    by code_simp
  have opts: "keysAndElementsMapperOption (defaultOptions exampleDocument) = keysAndElementsMapper"
    "cellValueConverter (defaultOptions exampleDocument) = textContentConverter"
    by (simp_all add: defaultOptions_def)
  from dup [THEN conjunct1] v
  have "keysAndElementsMapper [''name'', ''name''] [cellElement ''first'', cellElement ''second'']
     textContentConverter ''name'' = Some ''second''"
    by simp
  moreover from dup [THEN conjunct2]
  have "keysAndElementsMapper [''name'', ''name''] [cellElement ''first'', cellElement ''second'']
     textContentConverter
     \<in> set (convertTableToRecordArray duplicateHeaderTable (defaultOptions exampleDocument))"
    by (simp add: duplicateHeaderTable_rows opts)
  ultimately show ?thesis
    by (simp add: duplicateHeaderTable_rows)
qed

section \<open>Properties of the table converter\<close>

text \<open>
  C4. The table converter returns one record for each row whose number of cells equals
  the number of headers, in the order of the rows, and nothing for any other row; when
  every row has as many cells as there are headers, there are as many records as rows.
\<close>

theorem convertTableToRecordArray_rows:
  "convertTableToRecordArray table opts =
     map (\<lambda>cells. keysAndElementsMapperOption opts (tableHeaders table opts) cells
                    (cellValueConverter opts))
       (filter (\<lambda>cells. length cells = length (tableHeaders table opts)) (tableRows table opts)) \<and>
   ((\<forall>cells \<in> set (tableRows table opts). length cells = length (tableHeaders table opts)) \<longrightarrow>
      length (convertTableToRecordArray table opts) =
        length (querySelectorAll table (rowSelector opts)))"
proof -
  have eq: "convertTableToRecordArray table opts =
     map (\<lambda>cells. keysAndElementsMapperOption opts (tableHeaders table opts) cells
                    (cellValueConverter opts))
       (filter (\<lambda>cells. length cells = length (tableHeaders table opts)) (tableRows table opts))"
    by (simp add: convertTableToRecordArray_def Let_def reduce_def reduceFrom_filter_map)
  have len: "length (tableRows table opts) = length (querySelectorAll table (rowSelector opts))"
    by (simp add: tableRows_def arrayFrom_length)
  show ?thesis
  proof (intro conjI impI)
    show "convertTableToRecordArray table opts =
     map (\<lambda>cells. keysAndElementsMapperOption opts (tableHeaders table opts) cells
                    (cellValueConverter opts))
       (filter (\<lambda>cells. length cells = length (tableHeaders table opts)) (tableRows table opts))"
      by (rule eq)
  next
    assume "\<forall>cells \<in> set (tableRows table opts). length cells = length (tableHeaders table opts)"
    then have "filter (\<lambda>cells. length cells = length (tableHeaders table opts)) (tableRows table opts)
                 = tableRows table opts"
      by (simp add: filter_id_conv)
    then show "length (convertTableToRecordArray table opts) =
        length (querySelectorAll table (rowSelector opts))"
      by (simp add: eq len)
  qed
qed

text \<open>The theorem at concrete inputs.\<close>

theorem convertTableToRecordArray_rows_witness:
  "map length (tableRows exampleTable (defaultOptions exampleDocument)) = [2, 2] \<and>
   length (tableHeaders exampleTable (defaultOptions exampleDocument)) = 2 \<and>
   length (convertTableToRecordArray exampleTable (defaultOptions exampleDocument)) = 2 \<and>
   map length (tableRows shortRowTable (defaultOptions exampleDocument)) = [1] \<and>
   convertTableToRecordArray shortRowTable (defaultOptions exampleDocument) = []"
  using convertTableToRecordArray_rows [of exampleTable "defaultOptions exampleDocument"]
    convertTableToRecordArray_rows [of shortRowTable "defaultOptions exampleDocument"]
  by (simp add: exampleTable_rows exampleTable_row_count)

section \<open>Properties of the document extractor\<close>

text \<open>
  C5 (as amended). Last write wins among the containers that hold a table: when the
  container at position \<open>j\<close> derives the key \<open>k\<close> and holds the table \<open>t\<close>, and no
  later container with a table derives \<open>k\<close>, the result maps \<open>k\<close> to the records of
  \<open>t\<close>, whatever earlier containers derived the same key. A later container that
  derives \<open>k\<close> and holds no table writes nothing.
\<close>

theorem getTablesAsRecord_last_write_wins:
  assumes "j < length (tableEntries opts)"
    and "tableEntries opts ! j = (k, Some t)"
    and "\<forall>l t'. j < l \<and> l < length (tableEntries opts) \<longrightarrow> tableEntries opts ! l \<noteq> (k, Some t')"
  shows "getTablesAsRecord opts k = Some (convertTableToRecordArray t opts)"
  using assms
  by (simp add: getTablesAsRecord_def collectTables_def reduce_def collect_last_write)

text \<open>The theorem at concrete inputs.\<close>

theorem getTablesAsRecord_last_write_wins_witness:
  "tableEntries (defaultOptions exampleDocument) ! 0 = (''latestIpod'', Some exampleTable) \<and>
   tableEntries (defaultOptions exampleDocument) ! 1 = (''latestIpod'', Some shortRowTable) \<and>
   getTablesAsRecord (defaultOptions exampleDocument) ''latestIpod'' =
     Some (convertTableToRecordArray shortRowTable (defaultOptions exampleDocument)) \<and>
   tableEntries (defaultOptions tablelessCollisionDocument) =
     [(''latestIpod'', Some exampleTable), (''latestIpod'', None)] \<and>
   getTablesAsRecord (defaultOptions tablelessCollisionDocument) ''latestIpod'' =
     Some (convertTableToRecordArray exampleTable (defaultOptions tablelessCollisionDocument))"
  using getTablesAsRecord_last_write_wins
          [where opts = "defaultOptions exampleDocument" and j = 1 and k = "''latestIpod''"
             and t = shortRowTable]
        exampleDocument_no_later_entry
        getTablesAsRecord_last_write_wins
          [where opts = "defaultOptions tablelessCollisionDocument" and j = 0
             and k = "''latestIpod''" and t = exampleTable]
        tablelessCollisionDocument_no_later_entry
  by (simp add: exampleDocument_entries collisionDocument_entries)

text \<open>
  C5 as stated fails: both containers derive \<open>latestIpod\<close>, the later one holds no
  table, and the result maps the key to the two records of the earlier one.
\<close>

theorem getTablesAsRecord_later_without_table_counterexample:
  "tableEntries (defaultOptions tablelessCollisionDocument) =
     [(''latestIpod'', Some exampleTable), (''latestIpod'', None)] \<and>
   getTablesAsRecord (defaultOptions tablelessCollisionDocument) ''latestIpod'' =
     Some (convertTableToRecordArray exampleTable (defaultOptions tablelessCollisionDocument)) \<and>
   length (convertTableToRecordArray exampleTable (defaultOptions tablelessCollisionDocument)) = 2"
  by (simp add: getTablesAsRecord_def collectTables_def reduce_def collisionDocument_entries
      addTable_def example_record_counts)

text \<open>
  C7. A container in which the table selector finds nothing is skipped: the result is
  the one obtained from the pairs of all other containers (each with the key derived at
  its own position), and its keys are the keys of containers that hold a table.
\<close>

theorem getTablesAsRecord_skips_missing_table:
  assumes "i < length (querySelectorAll (root opts) (scopeSelector opts))"
    and "querySelector (querySelectorAll (root opts) (scopeSelector opts) ! i)
           (tableSelector opts) = None"
  shows "getTablesAsRecord opts =
           collectTables opts (take i (tableEntries opts) @ drop (Suc i) (tableEntries opts)) \<and>
         dom (getTablesAsRecord opts) =
           {k. \<exists>t. (k, Some t) \<in> set (take i (tableEntries opts) @ drop (Suc i) (tableEntries opts))}"
proof -
  have len: "i < length (tableEntries opts)"
    using assms(1) by (simp add: tableEntries_length)
  obtain k where k: "tableEntries opts ! i = (k, None)"
    using assms by (simp add: tableEntries_nth)
  have split: "tableEntries opts =
      take i (tableEntries opts) @ (k, None) # drop (Suc i) (tableEntries opts)"
    using id_take_nth_drop [OF len] k by simp
  have eq: "getTablesAsRecord opts =
           collectTables opts (take i (tableEntries opts) @ drop (Suc i) (tableEntries opts))"
    unfolding getTablesAsRecord_def collectTables_def reduce_def
    by (subst split) (rule collect_skip)
  have "dom (collectTables opts (take i (tableEntries opts) @ drop (Suc i) (tableEntries opts))) =
           {k. \<exists>t. (k, Some t) \<in> set (take i (tableEntries opts) @ drop (Suc i) (tableEntries opts))}"
    unfolding collectTables_def reduce_def by (simp add: collect_dom)
  with eq show ?thesis
    by simp
qed

text \<open>The theorem at concrete inputs.\<close>

theorem getTablesAsRecord_skips_missing_table_witness:
  "getTablesAsRecord (defaultOptions exampleDocument) =
     collectTables (defaultOptions exampleDocument)
       [(''latestIpod'', Some exampleTable), (''latestIpod'', Some shortRowTable),
        (''table2'', Some exampleTable)] \<and>
   getTablesAsRecord (defaultOptions exampleDocument) ''noTable'' = None"
proof -
  have i: "3 < length (querySelectorAll (root (defaultOptions exampleDocument))
             (scopeSelector (defaultOptions exampleDocument)))"
    by (simp add: exampleDocument_containers)
  note skip = getTablesAsRecord_skips_missing_table [OF i exampleDocument_containers(2)]
  from skip [THEN conjunct1] have "getTablesAsRecord (defaultOptions exampleDocument) =
     collectTables (defaultOptions exampleDocument)
       [(''latestIpod'', Some exampleTable), (''latestIpod'', Some shortRowTable),
        (''table2'', Some exampleTable)]"
    by (simp add: exampleDocument_entries)
  moreover from skip [THEN conjunct2]
  have "''noTable'' \<notin> dom (getTablesAsRecord (defaultOptions exampleDocument))"
    by (simp add: exampleDocument_entries)
  ultimately show ?thesis
    by (simp add: domIff)
qed

text \<open>
  C10 (as amended). A container that holds a table always contributes an entry under
  its derived key, whose value is an array. When no row of the table has as many cells
  as there are headers, the key maps to the empty array, unless a later container that
  holds a table derives the same key and overwrites it.
\<close>

theorem getTablesAsRecord_entry_for_every_table:
  assumes "j < length (tableEntries opts)"
    and "tableEntries opts ! j = (k, Some t)"
  shows "(\<exists>records. getTablesAsRecord opts k = Some records) \<and>
         ((\<forall>l t'. j < l \<and> l < length (tableEntries opts) \<longrightarrow> tableEntries opts ! l \<noteq> (k, Some t')) \<and>
          (\<forall>cells \<in> set (tableRows t opts). length cells \<noteq> length (tableHeaders t opts)) \<longrightarrow>
            getTablesAsRecord opts k = Some [])"
proof (intro conjI impI)
  have "(k, Some t) \<in> set (tableEntries opts)"
    using assms by (metis nth_mem)
  then have "k \<in> dom (getTablesAsRecord opts)"
    unfolding getTablesAsRecord_def collectTables_def reduce_def
    by (auto simp: collect_dom)
  then show "\<exists>records. getTablesAsRecord opts k = Some records"
    by auto
next
  assume a: "(\<forall>l t'. j < l \<and> l < length (tableEntries opts) \<longrightarrow> tableEntries opts ! l \<noteq> (k, Some t')) \<and>
          (\<forall>cells \<in> set (tableRows t opts). length cells \<noteq> length (tableHeaders t opts))"
  then have "filter (\<lambda>cells. length cells = length (tableHeaders t opts)) (tableRows t opts) = []"
    by (simp add: filter_empty_conv)
  then have "convertTableToRecordArray t opts = []"
    by (simp add: convertTableToRecordArray_def Let_def reduce_def reduceFrom_filter_map)
  moreover have "getTablesAsRecord opts k = Some (convertTableToRecordArray t opts)"
    using assms a
    by (simp add: getTablesAsRecord_def collectTables_def reduce_def collect_last_write)
  ultimately show "getTablesAsRecord opts k = Some []"
    by simp
qed

text \<open>The theorem at concrete inputs.\<close>

theorem getTablesAsRecord_entry_for_every_table_witness:
  "tableEntries (defaultOptions exampleDocument) ! 1 = (''latestIpod'', Some shortRowTable) \<and>
   map length (tableRows shortRowTable (defaultOptions exampleDocument)) = [1] \<and>
   length (tableHeaders shortRowTable (defaultOptions exampleDocument)) = 2 \<and>
   getTablesAsRecord (defaultOptions exampleDocument) ''latestIpod'' = Some []"
  using getTablesAsRecord_entry_for_every_table
          [where opts = "defaultOptions exampleDocument" and j = 1 and k = "''latestIpod''"
             and t = shortRowTable]
        exampleDocument_no_later_entry
  by (simp add: exampleDocument_entries exampleTable_rows)

text \<open>
  C10 as stated fails: the first container holds a table all of whose rows are dropped,
  and its key maps to the two records of the later container, not to the empty array.
\<close>

theorem getTablesAsRecord_empty_table_overwritten_counterexample:
  "tableEntries (defaultOptions overwrittenTableDocument) =
     [(''latestIpod'', Some shortRowTable), (''latestIpod'', Some exampleTable)] \<and>
   convertTableToRecordArray shortRowTable (defaultOptions overwrittenTableDocument) = [] \<and>
   getTablesAsRecord (defaultOptions overwrittenTableDocument) ''latestIpod'' =
     Some (convertTableToRecordArray exampleTable (defaultOptions overwrittenTableDocument)) \<and>
   length (convertTableToRecordArray exampleTable (defaultOptions overwrittenTableDocument)) = 2 \<and>
   getTablesAsRecord (defaultOptions overwrittenTableDocument) ''latestIpod'' \<noteq> Some []"
proof -
  have r: "getTablesAsRecord (defaultOptions overwrittenTableDocument) ''latestIpod'' =
     Some (convertTableToRecordArray exampleTable (defaultOptions overwrittenTableDocument))"
    by (simp add: getTablesAsRecord_def collectTables_def reduce_def collisionDocument_entries
      addTable_def)
  have "convertTableToRecordArray exampleTable (defaultOptions overwrittenTableDocument) \<noteq> []"
    using example_record_counts(1) [of overwrittenTableDocument] by auto
  with r show ?thesis
    by (simp add: collisionDocument_entries example_record_counts)
qed

end
